theory Spec2Isabelle
  imports Main "HOL-Library.Monad_Syntax"
begin

section \<open>Brian's Brain: the grid and the rule engine of briansbrain.c\<close>

subsection \<open>Constants and cell states\<close>

text \<open>
  The compile-time constants of the program (\<^verbatim>\<open>#define MAX_X 300\<close>, \<^verbatim>\<open>#define MAX_Y 300\<close>,
  \<^verbatim>\<open>#define DENSITY 7\<close>) and the anonymous enumeration
  \<^verbatim>\<open>enum {READY, REFRACTORY, FIRING}\<close>, whose constants are the C integers 0, 1 and 2.
\<close>

definition MAX_X :: int where "MAX_X = 300"
definition MAX_Y :: int where "MAX_Y = 300"
definition DENSITY :: int where "DENSITY = 7"

definition READY :: int where "READY = 0"
definition REFRACTORY :: int where "REFRACTORY = 1"
definition FIRING :: int where "FIRING = 2"

subsection \<open>The world array\<close>

text \<open>
  \<^verbatim>\<open>int world[MAX_X][MAX_Y]\<close> is a store from index pairs to C integers. The cells are
  plain integers: the array can hold values that are none of the three states. No
  arithmetic is ever done on a cell (cells are only compared and assigned), and the
  loop counters and the neighbour count stay far below the range of a C \<^verbatim>\<open>int\<close>, so
  unbounded integers model both without loss.

  Only the index pairs \<open>(x, y)\<close> with \<open>0 \<le> x < MAX_X\<close> and \<open>0 \<le> y < MAX_Y\<close> are cells
  of the array. A subscript outside that range is undefined behaviour in C; here every
  subscript goes through \<open>rd\<close> or \<open>wr\<close>, which return \<open>None\<close> for it, so an
  out-of-bounds access of the program is a \<open>None\<close> result of the model.
\<close>

type_synonym world = "int \<Rightarrow> int \<Rightarrow> int"

definition in_bounds :: "int \<Rightarrow> int \<Rightarrow> bool" where
  "in_bounds x y \<longleftrightarrow> (0 \<le> x \<and> x < MAX_X) \<and> (0 \<le> y \<and> y < MAX_Y)"

text \<open>Reading \<^verbatim>\<open>world[x][y]\<close>.\<close>

definition rd :: "world \<Rightarrow> int \<Rightarrow> int \<Rightarrow> int option" where
  "rd world x y = (if in_bounds x y then Some (world x y) else None)"

text \<open>The assignment \<^verbatim>\<open>world[x][y] = v\<close>.\<close>

definition wr :: "world \<Rightarrow> int \<Rightarrow> int \<Rightarrow> int \<Rightarrow> world option" where
  "wr world x y v = (if in_bounds x y then Some (world(x := (world x)(y := v))) else None)"

subsection \<open>count_neighbours\<close>

text \<open>
  The inner loop \<^verbatim>\<open>for (x = -1; x < 2; x++)\<close> of \<^verbatim>\<open>count_neighbours\<close>, with the running
  \<^verbatim>\<open>count\<close> as accumulator. The bounds test is the one of the source, on \<^verbatim>\<open>cx\<close> and
  \<^verbatim>\<open>cy\<close>; the read is \<^verbatim>\<open>world[x_pos + x][y_pos + y]\<close>.
\<close>

function count_neighbours_x :: "world \<Rightarrow> int \<Rightarrow> int \<Rightarrow> int \<Rightarrow> int \<Rightarrow> int \<Rightarrow> int option" where
  "count_neighbours_x world x_pos y_pos y x count =
     (if x < 2 then
        (let cx = x_pos + x; cy = y_pos + y in
         if (0 \<le> cx \<and> cx < MAX_X) \<and> (0 \<le> cy \<and> cy < MAX_Y) then
           (case rd world (x_pos + x) (y_pos + y) of
              None \<Rightarrow> None
            | Some cell \<Rightarrow>
                count_neighbours_x world x_pos y_pos y (x + 1)
                  (if cell = FIRING then count + 1 else count))
         else count_neighbours_x world x_pos y_pos y (x + 1) count)
      else Some count)"
  by pat_completeness auto
termination
  by (relation "measure (\<lambda>(world, x_pos, y_pos, y, x, count). nat (2 - x))") auto

text \<open>The outer loop \<^verbatim>\<open>for (y = -1; y < 2; y++)\<close>.\<close>

function count_neighbours_y :: "world \<Rightarrow> int \<Rightarrow> int \<Rightarrow> int \<Rightarrow> int \<Rightarrow> int option" where
  "count_neighbours_y world x_pos y_pos y count =
     (if y < 2 then
        (case count_neighbours_x world x_pos y_pos y (- 1) count of
           None \<Rightarrow> None
         | Some count' \<Rightarrow> count_neighbours_y world x_pos y_pos (y + 1) count')
      else Some count)"
  by pat_completeness auto
termination
  by (relation "measure (\<lambda>(world, x_pos, y_pos, y, count). nat (2 - y))") auto

definition count_neighbours :: "world \<Rightarrow> int \<Rightarrow> int \<Rightarrow> int option" where
  "count_neighbours world x_pos y_pos = count_neighbours_y world x_pos y_pos (- 1) 0"

subsection \<open>apply_rules\<close>

text \<open>
  The body of the two loops of \<^verbatim>\<open>apply_rules\<close> for one index pair: the cell is read from
  the copy \<^verbatim>\<open>temp\<close>, the neighbours are counted in \<^verbatim>\<open>temp\<close>, and the new state is
  written to \<^verbatim>\<open>world\<close>. A \<^verbatim>\<open>READY\<close> cell whose count is not 2 is not written at all.
\<close>

definition apply_rules_cell :: "world \<Rightarrow> world \<Rightarrow> int \<Rightarrow> int \<Rightarrow> world option" where
  "apply_rules_cell temp world x y =
     do {
       cell \<leftarrow> rd temp x y;
       if cell = READY then
         do {
           neighbours \<leftarrow> count_neighbours temp x y;
           if neighbours = 2 then wr world x y FIRING else Some world
         }
       else if cell = FIRING then wr world x y REFRACTORY
       else wr world x y READY
     }"

text \<open>The inner loop \<^verbatim>\<open>for (x = 0; x < MAX_Y; x++)\<close>.\<close>

function apply_rules_x :: "world \<Rightarrow> world \<Rightarrow> int \<Rightarrow> int \<Rightarrow> world option" where
  "apply_rules_x temp world y x =
     (if x < MAX_Y then
        (case apply_rules_cell temp world x y of
           None \<Rightarrow> None
         | Some world' \<Rightarrow> apply_rules_x temp world' y (x + 1))
      else Some world)"
  by pat_completeness auto
termination
  by (relation "measure (\<lambda>(temp, world, y, x). nat (MAX_Y - x))") auto

text \<open>The outer loop \<^verbatim>\<open>for (y = 0; y < MAX_X; y++)\<close>.\<close>

function apply_rules_y :: "world \<Rightarrow> world \<Rightarrow> int \<Rightarrow> world option" where
  "apply_rules_y temp world y =
     (if y < MAX_X then
        (case apply_rules_x temp world y 0 of
           None \<Rightarrow> None
         | Some world' \<Rightarrow> apply_rules_y temp world' (y + 1))
      else Some world)"
  by pat_completeness auto
termination
  by (relation "measure (\<lambda>(temp, world, y). nat (MAX_X - y))") auto

text \<open>
  \<^verbatim>\<open>memcpy(temp, world, sizeof(temp))\<close> makes \<^verbatim>\<open>temp\<close> a copy of the whole array; the
  loops then read \<^verbatim>\<open>temp\<close> and write \<^verbatim>\<open>world\<close>. The result is the array \<^verbatim>\<open>world\<close> the
  caller sees afterwards, or \<open>None\<close> if a subscript left the array.
\<close>

definition apply_rules :: "world \<Rightarrow> world option" where
  "apply_rules world = (let temp = world in apply_rules_y temp world 0)"

text \<open>The state of cell \<open>(x, y)\<close> after one call of \<^verbatim>\<open>apply_rules\<close>.\<close>

definition cell_after :: "world \<Rightarrow> int \<Rightarrow> int \<Rightarrow> int option" where
  "cell_after world x y = do { world' \<leftarrow> apply_rules world; rd world' x y }"

subsection \<open>Random numbers and populate\<close>

text \<open>
  The C library's \<^verbatim>\<open>rand()\<close> is a state machine that returns a non-negative integer at
  each call. A run of the program is modelled against the sequence of values its calls
  return (a \<open>rand_source\<close>); the state threaded through the code is the number of calls
  made so far.
\<close>

type_synonym rand_source = "nat \<Rightarrow> nat"

definition rand_call :: "rand_source \<Rightarrow> nat \<Rightarrow> int \<times> nat" where
  "rand_call src pos = (int (src pos), Suc pos)"

text \<open>
  \<^verbatim>\<open>weighted_randint\<close>: \<^verbatim>\<open>rand() % 10\<close> of a non-negative value is its last decimal
  digit, which is \<open>mod\<close> on the integers.
\<close>

definition weighted_randint :: "rand_source \<Rightarrow> int \<Rightarrow> nat \<Rightarrow> int \<times> nat" where
  "weighted_randint src true_weight pos =
     (let (r, pos') = rand_call src pos;
          choice = r mod 10
      in if choice > true_weight then (1, pos') else (0, pos'))"

text \<open>
  The body of the loops of \<^verbatim>\<open>populate\<close> for one index pair. The parameter \<^verbatim>\<open>rand\<close> of
  the source is the flag \<open>rand\<close> here. In the branch \<^verbatim>\<open>rand == 1\<close> the only assignment
  is the one under \<^verbatim>\<open>if (r == 1)\<close>.
\<close>

definition populate_cell ::
  "rand_source \<Rightarrow> world \<Rightarrow> int \<Rightarrow> int \<Rightarrow> int \<Rightarrow> nat \<Rightarrow> (world \<times> nat) option" where
  "populate_cell src world rand x y pos =
     (if rand = 1 then
        (let (r, pos') = weighted_randint src DENSITY pos
         in if r = 1 then do { world' \<leftarrow> wr world x y FIRING; Some (world', pos') }
            else Some (world, pos'))
      else do { world' \<leftarrow> wr world x y READY; Some (world', pos) })"

text \<open>The inner loop \<^verbatim>\<open>for (x = 0; x < MAX_Y; x++)\<close> of \<^verbatim>\<open>populate\<close>.\<close>

function populate_x ::
  "rand_source \<Rightarrow> world \<Rightarrow> int \<Rightarrow> int \<Rightarrow> int \<Rightarrow> nat \<Rightarrow> (world \<times> nat) option" where
  "populate_x src world rand y x pos =
     (if x < MAX_Y then
        (case populate_cell src world rand x y pos of
           None \<Rightarrow> None
         | Some (world', pos') \<Rightarrow> populate_x src world' rand y (x + 1) pos')
      else Some (world, pos))"
  by pat_completeness auto
termination
  by (relation "measure (\<lambda>(src, world, rand, y, x, pos). nat (MAX_Y - x))") auto

text \<open>The outer loop \<^verbatim>\<open>for (y = 0; y < MAX_X; y++)\<close> of \<^verbatim>\<open>populate\<close>.\<close>

function populate_y ::
  "rand_source \<Rightarrow> world \<Rightarrow> int \<Rightarrow> int \<Rightarrow> nat \<Rightarrow> (world \<times> nat) option" where
  "populate_y src world rand y pos =
     (if y < MAX_X then
        (case populate_x src world rand y 0 pos of
           None \<Rightarrow> None
         | Some (world', pos') \<Rightarrow> populate_y src world' rand (y + 1) pos')
      else Some (world, pos))"
  by pat_completeness auto
termination
  by (relation "measure (\<lambda>(src, world, rand, y, pos). nat (MAX_X - y))") auto

definition populate :: "rand_source \<Rightarrow> world \<Rightarrow> int \<Rightarrow> nat \<Rightarrow> (world \<times> nat) option" where
  "populate src world rand pos = populate_y src world rand 0 pos"

text \<open>The state of cell \<open>(x, y)\<close> after one call of \<^verbatim>\<open>populate\<close>.\<close>

definition cell_populated ::
  "rand_source \<Rightarrow> world \<Rightarrow> int \<Rightarrow> nat \<Rightarrow> int \<Rightarrow> int \<Rightarrow> int option" where
  "cell_populated src world rand pos x y =
     do { (world', pos') \<leftarrow> populate src world rand pos; rd world' x y }"

text \<open>
  The driver \<^verbatim>\<open>main\<close> without its rendering: \<^verbatim>\<open>populate(world, rand)\<close> once, on the
  array as it is found, then \<^verbatim>\<open>apply_rules(world)\<close> once per frame. \<open>generation\<close> is
  the array after \<open>n\<close> frames.
\<close>

fun iterate_rules :: "nat \<Rightarrow> world \<Rightarrow> world option" where
  "iterate_rules 0 world = Some world"
| "iterate_rules (Suc n) world = do { world' \<leftarrow> apply_rules world; iterate_rules n world' }"

definition generation :: "rand_source \<Rightarrow> world \<Rightarrow> int \<Rightarrow> nat \<Rightarrow> world option" where
  "generation src world rand n =
     do { (world', pos') \<leftarrow> populate src world rand 0; iterate_rules n world' }"

text \<open>The state of cell \<open>(x, y)\<close> in generation \<open>n\<close>.\<close>

definition cell_of_generation ::
  "rand_source \<Rightarrow> world \<Rightarrow> int \<Rightarrow> nat \<Rightarrow> int \<Rightarrow> int \<Rightarrow> int option" where
  "cell_of_generation src world rand n x y =
     do { world' \<leftarrow> generation src world rand n; rd world' x y }"

section \<open>The specification's view of the automaton\<close>

text \<open>
  The specification's cell is an enumeration with exactly three variants, and its grid a
  container of cells indexed by the coordinates \<open>(x, y)\<close> with \<open>0 \<le> x < WIDTH\<close> and
  \<open>0 \<le> y < HEIGHT\<close>. A grid is a function on all index pairs here; only its values at
  the pairs that satisfy \<open>in_bounds\<close> are cells. \<open>encode\<close> stores a grid as the program
  does, each state as its enumeration constant.
\<close>

datatype cell = Ready | Refractory | Firing

fun cell_code :: "cell \<Rightarrow> int" where
  "cell_code Ready = READY"
| "cell_code Refractory = REFRACTORY"
| "cell_code Firing = FIRING"

type_synonym grid = "int \<Rightarrow> int \<Rightarrow> cell"

definition encode :: "grid \<Rightarrow> world" where
  "encode g = (\<lambda>x y. cell_code (g x y))"

text \<open>
  The Moore neighbourhood of \<open>(x, y)\<close>: the eight surrounding positions, of which the
  ones outside the grid are skipped (the grid does not wrap). The centre is not among
  them.
\<close>

definition moore_positions :: "int \<Rightarrow> int \<Rightarrow> (int \<times> int) list" where
  "moore_positions x y =
     [(x - 1, y - 1), (x, y - 1), (x + 1, y - 1),
      (x - 1, y),                 (x + 1, y),
      (x - 1, y + 1), (x, y + 1), (x + 1, y + 1)]"

definition moore_neighbours :: "int \<Rightarrow> int \<Rightarrow> (int \<times> int) list" where
  "moore_neighbours x y = filter (\<lambda>(a, b). in_bounds a b) (moore_positions x y)"

text \<open>The number of in-bounds Moore neighbours that are firing, in an array and in a grid.\<close>

definition firing_neighbours :: "world \<Rightarrow> int \<Rightarrow> int \<Rightarrow> nat" where
  "firing_neighbours world x y =
     length (filter (\<lambda>(a, b). world a b = FIRING) (moore_neighbours x y))"

definition firing_neighbours_grid :: "grid \<Rightarrow> int \<Rightarrow> int \<Rightarrow> nat" where
  "firing_neighbours_grid g x y =
     length (filter (\<lambda>(a, b). g a b = Firing) (moore_neighbours x y))"

text \<open>
  The transition of one cell as the specification words it, decided from the grid \<open>g\<close>
  of the previous generation alone: a \<open>Ready\<close> cell becomes \<open>Firing\<close> if exactly two of
  its Moore neighbours are firing and stays \<open>Ready\<close> otherwise, a \<open>Firing\<close> cell becomes
  \<open>Refractory\<close>, a \<open>Refractory\<close> cell becomes \<open>Ready\<close>.
\<close>

definition transition :: "grid \<Rightarrow> int \<Rightarrow> int \<Rightarrow> cell" where
  "transition g x y =
     (case g x y of
        Ready \<Rightarrow> if firing_neighbours_grid g x y = 2 then Firing else Ready
      | Firing \<Rightarrow> Refractory
      | Refractory \<Rightarrow> Ready)"

text \<open>
  The simultaneous next generation: every cell of the grid takes its transition, all
  computed from the same grid \<open>g\<close>. There is no order of evaluation in this definition.
  Index pairs outside the grid are no cells and keep whatever the function holds there.
\<close>

definition advance_simultaneous :: "grid \<Rightarrow> grid" where
  "advance_simultaneous g = (\<lambda>x y. if in_bounds x y then transition g x y else g x y)"

section \<open>Auxiliary notions\<close>

text \<open>The contribution of position \<open>(a, b)\<close> to a neighbour count: 1 for a firing cell of the array, 0 otherwise.\<close>

definition fire :: "world \<Rightarrow> int \<Rightarrow> int \<Rightarrow> int" where
  "fire world a b = (if in_bounds a b \<and> world a b = FIRING then 1 else 0)"

text \<open>The sum over the full 3 by 3 block around \<open>(x, y)\<close>, centre included, in the order of the loops.\<close>

definition block_count :: "world \<Rightarrow> int \<Rightarrow> int \<Rightarrow> int" where
  "block_count w x y =
     fire w (x - 1) (y - 1) + fire w x (y - 1) + fire w (x + 1) (y - 1) +
     fire w (x - 1) y + fire w x y + fire w (x + 1) y +
     fire w (x - 1) (y + 1) + fire w x (y + 1) + fire w (x + 1) (y + 1)"

text \<open>
  What one pass of the loop body leaves in cell \<open>(x, y)\<close> of \<open>world\<close> when it reads
  \<open>temp\<close>, and the same when \<open>temp\<close> is the copy of \<open>world\<close>.
\<close>

definition new_cell :: "world \<Rightarrow> world \<Rightarrow> int \<Rightarrow> int \<Rightarrow> int" where
  "new_cell temp world x y =
     (if temp x y = READY then (if block_count temp x y = 2 then FIRING else world x y)
      else if temp x y = FIRING then REFRACTORY
      else READY)"

definition next_state :: "world \<Rightarrow> int \<Rightarrow> int \<Rightarrow> int" where
  "next_state world x y =
     (if world x y = READY then (if block_count world x y = 2 then FIRING else READY)
      else if world x y = FIRING then REFRACTORY
      else READY)"

text \<open>
  What \<^verbatim>\<open>populate\<close> leaves in a cell that held \<open>old\<close> when the draw for it is the
  \<open>p\<close>-th value of the random source, and the number of values \<open>n\<close> cells consume.
\<close>

definition seeded :: "rand_source \<Rightarrow> int \<Rightarrow> nat \<Rightarrow> int \<Rightarrow> int" where
  "seeded src rand p old =
     (if rand = 1 then (if int (src p) mod 10 > DENSITY then FIRING else old) else READY)"

definition drawn :: "int \<Rightarrow> nat \<Rightarrow> nat" where
  "drawn rand n = (if rand = 1 then n else 0)"

text \<open>The three states as a set of C integers.\<close>

definition states :: "int set" where
  "states = {READY, REFRACTORY, FIRING}"

subsection \<open>Concrete arrays and random sources\<close>

text \<open>
  An array whose cells all hold \<^verbatim>\<open>REFRACTORY\<close>, one whose cells all hold 7 (no state),
  one with two firing cells at \<open>(1, 2)\<close> and \<open>(3, 2)\<close> among ready ones, the same with 9
  stored at every index pair outside the array, and a random source that always
  returns 0.
\<close>

definition world_refractory :: world where
  "world_refractory = (\<lambda>x y. REFRACTORY)"

definition world_sevens :: world where
  "world_sevens = (\<lambda>x y. 7)"

definition world_pair :: world where
  "world_pair = (\<lambda>x y. if (x = 1 \<or> x = 3) \<and> y = 2 then FIRING else READY)"

definition world_pair_padded :: world where
  "world_pair_padded = (\<lambda>x y. if in_bounds x y then world_pair x y else 9)"

text \<open>
  An array whose corner cell \<open>(0, 0)\<close> is ready, with firing cells at \<open>(1, 0)\<close> and
  \<open>(0, 1)\<close>, and with the firing value also stored at the index pair \<open>(-1, -1)\<close>, which is
  no cell of the array.
\<close>

definition world_corner :: world where
  "world_corner =
     (\<lambda>x y. if (x = 1 \<and> y = 0) \<or> (x = 0 \<and> y = 1) \<or> (x = - 1 \<and> y = - 1) then FIRING else READY)"

definition rand_zero :: rand_source where
  "rand_zero = (\<lambda>n. 0)"

definition grid_pair :: grid where
  "grid_pair = (\<lambda>x y. if (x = 1 \<or> x = 3) \<and> y = 2 then Firing else Ready)"

section \<open>The neighbour count in closed form\<close>

declare count_neighbours_x.simps [simp del] count_neighbours_y.simps [simp del]

lemma count_neighbours_x_step:
  "x < 2 \<Longrightarrow> count_neighbours_x w xp yp y x c =
     count_neighbours_x w xp yp y (x + 1) (c + fire w (xp + x) (yp + y))"
  by (subst count_neighbours_x.simps) (simp add: fire_def rd_def in_bounds_def Let_def)

lemma count_neighbours_x_stop: "count_neighbours_x w xp yp y 2 c = Some c"
  by (subst count_neighbours_x.simps) simp

lemma count_neighbours_x_row:
  "count_neighbours_x w xp yp y (- 1) c =
     Some (c + fire w (xp - 1) (yp + y) + fire w xp (yp + y) + fire w (xp + 1) (yp + y))"
  by (simp add: count_neighbours_x_step [of "- 1"] count_neighbours_x_step [of 0]
        count_neighbours_x_step [of 1] count_neighbours_x_stop)

lemma count_neighbours_y_step:
  "y < 2 \<Longrightarrow> count_neighbours_y w xp yp y c =
     count_neighbours_y w xp yp (y + 1)
       (c + fire w (xp - 1) (yp + y) + fire w xp (yp + y) + fire w (xp + 1) (yp + y))"
  by (subst count_neighbours_y.simps) (simp add: count_neighbours_x_row)

lemma count_neighbours_y_stop: "count_neighbours_y w xp yp 2 c = Some c"
  by (subst count_neighbours_y.simps) simp

lemma count_neighbours_block: "count_neighbours w x y = Some (block_count w x y)"
  by (simp add: count_neighbours_def block_count_def count_neighbours_y_step [of "- 1"]
        count_neighbours_y_step [of 0] count_neighbours_y_step [of 1] count_neighbours_y_stop)

lemma length_filter_fire:
  "int (length (filter (\<lambda>(a, b). w a b = FIRING) (filter (\<lambda>(a, b). in_bounds a b) ps))) =
     (\<Sum>(a, b)\<leftarrow>ps. fire w a b)"
  by (induction ps) (auto simp: fire_def)

lemma firing_neighbours_fire:
  "int (firing_neighbours w x y) =
     fire w (x - 1) (y - 1) + fire w x (y - 1) + fire w (x + 1) (y - 1) +
     fire w (x - 1) y + fire w (x + 1) y +
     fire w (x - 1) (y + 1) + fire w x (y + 1) + fire w (x + 1) (y + 1)"
  unfolding firing_neighbours_def moore_neighbours_def length_filter_fire
  by (simp add: moore_positions_def)

lemma block_count_centre:
  "block_count w x y = int (firing_neighbours w x y) + fire w x y"
  by (simp add: block_count_def firing_neighbours_fire)



lemma fire_range: "0 \<le> fire w a b \<and> fire w a b \<le> 1"
  by (simp add: fire_def)

section \<open>One generation in closed form\<close>

declare apply_rules_x.simps [simp del] apply_rules_y.simps [simp del]

lemma apply_rules_cell_eq:
  "in_bounds x y \<Longrightarrow>
     apply_rules_cell temp world x y = Some (world(x := (world x)(y := new_cell temp world x y)))"
  by (simp add: apply_rules_cell_def rd_def wr_def count_neighbours_block new_cell_def)

lemma new_cell_upd_other:
  "(a, b) \<noteq> (x, y) \<Longrightarrow> new_cell temp (world(x := (world x)(y := v))) a b = new_cell temp world a b"
  by (auto simp: new_cell_def)

lemma apply_rules_x_eq:
  "0 \<le> x \<Longrightarrow> 0 \<le> y \<Longrightarrow> y < MAX_X \<Longrightarrow>
     apply_rules_x temp world y x =
       Some (\<lambda>a b. if b = y \<and> x \<le> a \<and> a < MAX_Y then new_cell temp world a b else world a b)"
proof (induction temp world y x rule: apply_rules_x.induct)
  case (1 temp world y x)
  show ?case
  proof (cases "x < MAX_Y")
    case False
    have "apply_rules_x temp world y x = Some world"
      using False by (subst apply_rules_x.simps) simp
    moreover have "(\<lambda>a b. if b = y \<and> x \<le> a \<and> a < MAX_Y
                   then new_cell temp world a b else world a b) = world"
      using False by (intro ext) simp
    ultimately show ?thesis by (simp only:)
  next
    case True
    with "1.prems" have ib: "in_bounds x y"
      by (simp add: in_bounds_def MAX_X_def MAX_Y_def)
    let ?w' = "world(x := (world x)(y := new_cell temp world x y))"
    have step: "apply_rules_cell temp world x y = Some ?w'"
      using ib by (rule apply_rules_cell_eq)
    have "apply_rules_x temp ?w' y (x + 1) =
            Some (\<lambda>a b. if b = y \<and> x + 1 \<le> a \<and> a < MAX_Y then new_cell temp ?w' a b else ?w' a b)"
    proof -
      have "0 \<le> x + 1" using "1.prems" by simp
      then show ?thesis
        by (rule "1.IH" [OF True step _ "1.prems"(2) "1.prems"(3)])
    qed
    moreover have "(\<lambda>a b. if b = y \<and> x + 1 \<le> a \<and> a < MAX_Y then new_cell temp ?w' a b else ?w' a b) =
            (\<lambda>a b. if b = y \<and> x \<le> a \<and> a < MAX_Y then new_cell temp world a b else world a b)"
      using True by (intro ext) (auto simp: new_cell_upd_other)
    ultimately show ?thesis
      using True step by (subst apply_rules_x.simps) simp
  qed
qed


lemma new_cell_cong: "world' a b = world a b \<Longrightarrow> new_cell temp world' a b = new_cell temp world a b"
  by (simp add: new_cell_def)

lemma apply_rules_y_eq:
  "0 \<le> y \<Longrightarrow>
     apply_rules_y temp world y =
       Some (\<lambda>a b. if (y \<le> b \<and> b < MAX_X) \<and> (0 \<le> a \<and> a < MAX_Y)
                   then new_cell temp world a b else world a b)"
proof (induction temp world y rule: apply_rules_y.induct)
  case (1 temp world y)
  show ?case
  proof (cases "y < MAX_X")
    case False
    have "apply_rules_y temp world y = Some world"
      using False by (subst apply_rules_y.simps) simp
    moreover have "(\<lambda>a b. if (y \<le> b \<and> b < MAX_X) \<and> (0 \<le> a \<and> a < MAX_Y)
                   then new_cell temp world a b else world a b) = world"
      using False by (intro ext) simp
    ultimately show ?thesis by (simp only:)
  next
    case True
    define w' where
      "w' = (\<lambda>a b. if b = y \<and> 0 \<le> a \<and> a < MAX_Y then new_cell temp world a b else world a b)"
    have row: "apply_rules_x temp world y 0 = Some w'"
      unfolding w'_def using "1.prems" True by (intro apply_rules_x_eq) simp_all
    have "0 \<le> y + 1" using "1.prems" by simp
    then have ih: "apply_rules_y temp w' (y + 1) =
            Some (\<lambda>a b. if (y + 1 \<le> b \<and> b < MAX_X) \<and> (0 \<le> a \<and> a < MAX_Y)
                        then new_cell temp w' a b else w' a b)"
      by (rule "1.IH" [OF True row])
    have eq: "(\<lambda>a b. if (y + 1 \<le> b \<and> b < MAX_X) \<and> (0 \<le> a \<and> a < MAX_Y)
                        then new_cell temp w' a b else w' a b) =
            (\<lambda>a b. if (y \<le> b \<and> b < MAX_X) \<and> (0 \<le> a \<and> a < MAX_Y)
                   then new_cell temp world a b else world a b)"
    proof (intro ext)
      fix a b
      show "(if (y + 1 \<le> b \<and> b < MAX_X) \<and> (0 \<le> a \<and> a < MAX_Y)
                        then new_cell temp w' a b else w' a b) =
            (if (y \<le> b \<and> b < MAX_X) \<and> (0 \<le> a \<and> a < MAX_Y)
                   then new_cell temp world a b else world a b)"
      proof (cases "b = y")
        case True
        with \<open>y < MAX_X\<close> show ?thesis by (simp add: w'_def)
      next
        case False
        then have "w' a b = world a b" by (simp add: w'_def)
        then have "new_cell temp w' a b = new_cell temp world a b" by (rule new_cell_cong)
        with False \<open>w' a b = world a b\<close> show ?thesis by auto
      qed
    qed
    have "apply_rules_y temp world y = apply_rules_y temp w' (y + 1)"
      using True row by (subst apply_rules_y.simps) simp
    also note ih
    also note eq
    finally show ?thesis .
  qed
qed

lemma apply_rules_eq:
  "apply_rules world =
     Some (\<lambda>x y. if in_bounds x y then next_state world x y else world x y)"
proof -
  have "(\<lambda>a b. if (0 \<le> b \<and> b < MAX_X) \<and> (0 \<le> a \<and> a < MAX_Y)
               then new_cell world world a b else world a b) =
        (\<lambda>x y. if in_bounds x y then next_state world x y else world x y)"
    by (intro ext) (auto simp: in_bounds_def MAX_X_def MAX_Y_def new_cell_def next_state_def)
  then show ?thesis
    by (simp add: apply_rules_def apply_rules_y_eq)
qed

lemma cell_after_eq: "in_bounds x y \<Longrightarrow> cell_after world x y = Some (next_state world x y)"
  by (simp add: cell_after_def apply_rules_eq rd_def)



section \<open>Seeding in closed form\<close>

declare populate_x.simps [simp del] populate_y.simps [simp del]

lemma populate_cell_eq:
  "in_bounds x y \<Longrightarrow>
     populate_cell src world rand x y pos =
       Some (world(x := (world x)(y := seeded src rand pos (world x y))), pos + drawn rand 1)"
  by (simp add: populate_cell_def weighted_randint_def rand_call_def wr_def seeded_def
        drawn_def Let_def)

lemma populate_x_eq:
  "0 \<le> x \<Longrightarrow> 0 \<le> y \<Longrightarrow> y < MAX_X \<Longrightarrow>
     populate_x src world rand y x pos =
       Some (\<lambda>a b. if b = y \<and> x \<le> a \<and> a < MAX_Y
                   then seeded src rand (pos + drawn rand (nat (a - x))) (world a b)
                   else world a b,
             pos + drawn rand (nat (MAX_Y - x)))"
proof (induction src world rand y x pos rule: populate_x.induct)
  case (1 src world rand y x pos)
  show ?case
  proof (cases "x < MAX_Y")
    case False
    have "populate_x src world rand y x pos = Some (world, pos)"
      using False by (subst populate_x.simps) simp
    moreover have "(\<lambda>a b. if b = y \<and> x \<le> a \<and> a < MAX_Y
                   then seeded src rand (pos + drawn rand (nat (a - x))) (world a b)
                   else world a b) = world"
      using False by (intro ext) simp
    moreover have "pos + drawn rand (nat (MAX_Y - x)) = pos"
      using False by (simp add: drawn_def)
    ultimately show ?thesis by (simp only:)
  next
    case True
    with "1.prems" have ib: "in_bounds x y"
      by (simp add: in_bounds_def MAX_X_def MAX_Y_def)
    define w' where "w' = world(x := (world x)(y := seeded src rand pos (world x y)))"
    define pos' where "pos' = pos + drawn rand 1"
    have step: "populate_cell src world rand x y pos = Some (w', pos')"
      unfolding w'_def pos'_def using ib by (rule populate_cell_eq)
    have "0 \<le> x + 1" using "1.prems" by simp
    then have ih: "populate_x src w' rand y (x + 1) pos' =
            Some (\<lambda>a b. if b = y \<and> x + 1 \<le> a \<and> a < MAX_Y
                        then seeded src rand (pos' + drawn rand (nat (a - (x + 1)))) (w' a b)
                        else w' a b,
                  pos' + drawn rand (nat (MAX_Y - (x + 1))))"
      by (rule "1.IH" [OF True step refl _ "1.prems"(2) "1.prems"(3)])
    have eqw: "(\<lambda>a b. if b = y \<and> x + 1 \<le> a \<and> a < MAX_Y
                        then seeded src rand (pos' + drawn rand (nat (a - (x + 1)))) (w' a b)
                        else w' a b) =
               (\<lambda>a b. if b = y \<and> x \<le> a \<and> a < MAX_Y
                   then seeded src rand (pos + drawn rand (nat (a - x))) (world a b)
                   else world a b)"
    proof (intro ext)
      fix a b
      show "(if b = y \<and> x + 1 \<le> a \<and> a < MAX_Y
                        then seeded src rand (pos' + drawn rand (nat (a - (x + 1)))) (w' a b)
                        else w' a b) =
               (if b = y \<and> x \<le> a \<and> a < MAX_Y
                   then seeded src rand (pos + drawn rand (nat (a - x))) (world a b)
                   else world a b)"
      proof (cases "b = y \<and> x + 1 \<le> a")
        case True
        then have "nat (a - x) = Suc (nat (a - (x + 1)))" by linarith
        then have "pos' + drawn rand (nat (a - (x + 1))) = pos + drawn rand (nat (a - x))"
          by (simp add: pos'_def drawn_def)
        moreover have "w' a b = world a b" using True by (simp add: w'_def)
        ultimately show ?thesis using True by simp
      next
        case False
        with \<open>x < MAX_Y\<close> show ?thesis by (auto simp: w'_def drawn_def)
      qed
    qed
    have eqp: "pos' + drawn rand (nat (MAX_Y - (x + 1))) = pos + drawn rand (nat (MAX_Y - x))"
    proof -
      have "nat (MAX_Y - x) = Suc (nat (MAX_Y - (x + 1)))" using True by linarith
      then show ?thesis by (simp add: pos'_def drawn_def)
    qed
    have "populate_x src world rand y x pos = populate_x src w' rand y (x + 1) pos'"
      using True step by (subst populate_x.simps) simp
    also note ih
    finally show ?thesis unfolding eqw eqp .
  qed
qed


lemma drawn_add: "drawn rand (m + n) = drawn rand m + drawn rand n"
  by (simp add: drawn_def)

lemma populate_y_eq:
  "0 \<le> y \<Longrightarrow>
     populate_y src world rand y pos =
       Some (\<lambda>a b. if (y \<le> b \<and> b < MAX_X) \<and> (0 \<le> a \<and> a < MAX_Y)
                   then seeded src rand (pos + drawn rand (nat (b - y) * nat MAX_Y + nat a)) (world a b)
                   else world a b,
             pos + drawn rand (nat (MAX_X - y) * nat MAX_Y))"
proof (induction src world rand y pos rule: populate_y.induct)
  case (1 src world rand y pos)
  show ?case
  proof (cases "y < MAX_X")
    case False
    have "populate_y src world rand y pos = Some (world, pos)"
      using False by (subst populate_y.simps) simp
    moreover have "(\<lambda>a b. if (y \<le> b \<and> b < MAX_X) \<and> (0 \<le> a \<and> a < MAX_Y)
                   then seeded src rand (pos + drawn rand (nat (b - y) * nat MAX_Y + nat a)) (world a b)
                   else world a b) = world"
      using False by (intro ext) simp
    moreover have "pos + drawn rand (nat (MAX_X - y) * nat MAX_Y) = pos"
      using False by (simp add: drawn_def)
    ultimately show ?thesis by (simp only:)
  next
    case True
    define w' where
      "w' = (\<lambda>a b. if b = y \<and> 0 \<le> a \<and> a < MAX_Y
                   then seeded src rand (pos + drawn rand (nat (a - 0))) (world a b)
                   else world a b)"
    define pos' where "pos' = pos + drawn rand (nat (MAX_Y - 0))"
    have row: "populate_x src world rand y 0 pos = Some (w', pos')"
      unfolding w'_def pos'_def using "1.prems" True by (intro populate_x_eq) simp_all
    have "0 \<le> y + 1" using "1.prems" by simp
    then have ih: "populate_y src w' rand (y + 1) pos' =
            Some (\<lambda>a b. if (y + 1 \<le> b \<and> b < MAX_X) \<and> (0 \<le> a \<and> a < MAX_Y)
                   then seeded src rand (pos' + drawn rand (nat (b - (y + 1)) * nat MAX_Y + nat a)) (w' a b)
                   else w' a b,
                  pos' + drawn rand (nat (MAX_X - (y + 1)) * nat MAX_Y))"
      by (rule "1.IH" [OF True row refl])
    have eqw: "(\<lambda>a b. if (y + 1 \<le> b \<and> b < MAX_X) \<and> (0 \<le> a \<and> a < MAX_Y)
                   then seeded src rand (pos' + drawn rand (nat (b - (y + 1)) * nat MAX_Y + nat a)) (w' a b)
                   else w' a b) =
               (\<lambda>a b. if (y \<le> b \<and> b < MAX_X) \<and> (0 \<le> a \<and> a < MAX_Y)
                   then seeded src rand (pos + drawn rand (nat (b - y) * nat MAX_Y + nat a)) (world a b)
                   else world a b)"
    proof (intro ext)
      fix a b
      show "(if (y + 1 \<le> b \<and> b < MAX_X) \<and> (0 \<le> a \<and> a < MAX_Y)
                   then seeded src rand (pos' + drawn rand (nat (b - (y + 1)) * nat MAX_Y + nat a)) (w' a b)
                   else w' a b) =
               (if (y \<le> b \<and> b < MAX_X) \<and> (0 \<le> a \<and> a < MAX_Y)
                   then seeded src rand (pos + drawn rand (nat (b - y) * nat MAX_Y + nat a)) (world a b)
                   else world a b)"
      proof (cases "b = y")
        case True
        with \<open>y < MAX_X\<close> show ?thesis by (simp add: w'_def)
      next
        case False
        then have old: "w' a b = world a b" by (simp add: w'_def)
        show ?thesis
        proof (cases "y + 1 \<le> b")
          case True
          then have "nat (b - y) = Suc (nat (b - (y + 1)))" by linarith
          then have "pos' + drawn rand (nat (b - (y + 1)) * nat MAX_Y + nat a) =
                     pos + drawn rand (nat (b - y) * nat MAX_Y + nat a)"
            by (simp add: pos'_def drawn_add)
          with old True show ?thesis by simp
        next
          case False
          with \<open>b \<noteq> y\<close> old show ?thesis by simp
        qed
      qed
    qed
    have eqp: "pos' + drawn rand (nat (MAX_X - (y + 1)) * nat MAX_Y) =
               pos + drawn rand (nat (MAX_X - y) * nat MAX_Y)"
    proof -
      have "nat (MAX_X - y) = Suc (nat (MAX_X - (y + 1)))" using True by linarith
      then show ?thesis by (simp add: pos'_def drawn_add)
    qed
    have "populate_y src world rand y pos = populate_y src w' rand (y + 1) pos'"
      using True row by (subst populate_y.simps) simp
    also note ih
    finally show ?thesis unfolding eqw eqp .
  qed
qed

lemma populate_eq:
  "populate src world rand pos =
     Some (\<lambda>x y. if in_bounds x y
                 then seeded src rand (pos + drawn rand (nat y * nat MAX_Y + nat x)) (world x y)
                 else world x y,
           pos + drawn rand (nat MAX_X * nat MAX_Y))"
proof -
  have "(\<lambda>a b. if (0 \<le> b \<and> b < MAX_X) \<and> (0 \<le> a \<and> a < MAX_Y)
               then seeded src rand (pos + drawn rand (nat (b - 0) * nat MAX_Y + nat a)) (world a b)
               else world a b) =
        (\<lambda>x y. if in_bounds x y
                 then seeded src rand (pos + drawn rand (nat y * nat MAX_Y + nat x)) (world x y)
                 else world x y)"
    by (intro ext) (auto simp: in_bounds_def MAX_X_def MAX_Y_def)
  moreover have "populate src world rand pos =
      Some (\<lambda>a b. if (0 \<le> b \<and> b < MAX_X) \<and> (0 \<le> a \<and> a < MAX_Y)
               then seeded src rand (pos + drawn rand (nat (b - 0) * nat MAX_Y + nat a)) (world a b)
               else world a b, pos + drawn rand (nat (MAX_X - 0) * nat MAX_Y))"
    unfolding populate_def by (rule populate_y_eq) simp
  ultimately show ?thesis by simp
qed

lemma cell_populated_eq:
  "in_bounds x y \<Longrightarrow>
     cell_populated src world rand pos x y =
       Some (seeded src rand (pos + drawn rand (nat y * nat MAX_Y + nat x)) (world x y))"
  by (simp add: cell_populated_def populate_eq rd_def)


section \<open>Facts about the concrete inputs\<close>

lemma in_bounds_2_2: "in_bounds 2 2"
  by (simp add: in_bounds_def MAX_X_def MAX_Y_def)

lemma in_bounds_0_0: "in_bounds 0 0"
  by (simp add: in_bounds_def MAX_X_def MAX_Y_def)

lemma firing_neighbours_world_pair: "firing_neighbours world_pair 2 2 = 2"
  by (simp add: firing_neighbours_def moore_neighbours_def moore_positions_def in_bounds_def
        MAX_X_def MAX_Y_def world_pair_def READY_def FIRING_def)

section \<open>The encoding of grids\<close>

lemma encode_firing: "encode g a b = FIRING \<longleftrightarrow> g a b = Firing"
  by (cases "g a b") (simp_all add: encode_def READY_def FIRING_def REFRACTORY_def)

lemma firing_neighbours_encode: "firing_neighbours (encode g) x y = firing_neighbours_grid g x y"
  by (simp add: firing_neighbours_def firing_neighbours_grid_def encode_firing)

lemma next_state_encode: "next_state (encode g) x y = cell_code (transition g x y)"
proof (cases "g x y")
  case Ready
  then have "fire (encode g) x y = 0"
    by (simp add: fire_def encode_firing)
  then have "block_count (encode g) x y = int (firing_neighbours_grid g x y)"
    by (simp add: block_count_centre firing_neighbours_encode)
  with Ready show ?thesis
    by (simp add: next_state_def transition_def encode_def)
next
  case Refractory
  then show ?thesis
    by (simp add: next_state_def transition_def encode_def READY_def FIRING_def REFRACTORY_def)
next
  case Firing
  then show ?thesis
    by (simp add: next_state_def transition_def encode_def READY_def FIRING_def REFRACTORY_def)
qed

section \<open>Further facts about the count, the rule and the run\<close>

lemma moore_neighbours_corner: "moore_neighbours 0 0 = [(1, 0), (0, 1), (1, 1)]"
  by (simp add: moore_neighbours_def moore_positions_def in_bounds_def MAX_X_def MAX_Y_def)

lemma count_neighbours_not_firing:
  "world x y \<noteq> FIRING \<Longrightarrow> count_neighbours world x y = Some (int (firing_neighbours world x y))"
  by (simp add: count_neighbours_block block_count_centre fire_def)

lemma fire_agree:
  "(\<forall>x y. in_bounds x y \<longrightarrow> world1 x y = world2 x y) \<Longrightarrow> fire world1 a b = fire world2 a b"
  by (auto simp: fire_def)

lemma next_state_agree:
  assumes "\<forall>x y. in_bounds x y \<longrightarrow> world1 x y = world2 x y" and "in_bounds x y"
  shows "next_state world1 x y = next_state world2 x y"
proof -
  have "block_count world1 x y = block_count world2 x y"
    unfolding block_count_def by (simp only: fire_agree [OF assms(1)])
  moreover have "world1 x y = world2 x y"
    using assms by simp
  ultimately show ?thesis
    by (simp add: next_state_def)
qed

lemma block_count_range: "0 \<le> block_count w x y \<and> block_count w x y \<le> 9"
  unfolding block_count_def
  using fire_range [of w "x - 1" "y - 1"] fire_range [of w x "y - 1"] fire_range [of w "x + 1" "y - 1"]
    fire_range [of w "x - 1" y] fire_range [of w x y] fire_range [of w "x + 1" y]
    fire_range [of w "x - 1" "y + 1"] fire_range [of w x "y + 1"] fire_range [of w "x + 1" "y + 1"]
  by linarith

lemma apply_rules_states:
  "\<exists>world'. apply_rules world = Some world' \<and> (\<forall>x y. in_bounds x y \<longrightarrow> world' x y \<in> states)"
  by (simp add: apply_rules_eq next_state_def states_def)

lemma iterate_rules_states:
  "\<exists>world'. iterate_rules (Suc n) world = Some world' \<and>
     (\<forall>x y. in_bounds x y \<longrightarrow> world' x y \<in> states)"
proof (induction n arbitrary: world)
  case 0
  then show ?case
    using apply_rules_states [of world] by auto
next
  case (Suc n)
  obtain w1 where "apply_rules world = Some w1"
    using apply_rules_states [of world] by auto
  then have "iterate_rules (Suc (Suc n)) world = iterate_rules (Suc n) w1"
    by simp
  then show ?case
    using Suc.IH [of w1] by simp
qed

lemma generation_states_after_step:
  "\<exists>world'. generation src world rand (Suc n) = Some world' \<and>
     (\<forall>x y. in_bounds x y \<longrightarrow> world' x y \<in> states)"
  using iterate_rules_states unfolding generation_def populate_eq by simp

section \<open>The claims\<close>

text \<open>
  Claim C1 (random seeding) says that with \<^verbatim>\<open>rand == 1\<close> every cell is set from its own
  draw, to \<^verbatim>\<open>FIRING\<close> if the draw is greater than the density weight and to \<^verbatim>\<open>READY\<close>
  otherwise, so that no cell keeps its earlier value. The lemma \<open>cell_populated_eq\<close>
  gives what \<^verbatim>\<open>populate\<close> does: cell \<open>(x, y)\<close> is decided by the draw number
  \<open>y * MAX_Y + x\<close>, one draw for each cell, and becomes \<^verbatim>\<open>FIRING\<close> if that draw modulo 10
  is greater than \<^verbatim>\<open>DENSITY\<close>; otherwise it is not assigned and keeps the value it held.
  On the array of refractory cells with a random source that returns 0 every time, the
  draw for cell \<open>(0, 0)\<close> is 0, which is not greater than 7, and the cell is refractory
  after the call, not ready.
\<close>

theorem C1_prior_value_kept:
  "cell_populated rand_zero world_refractory 1 0 0 0 = Some REFRACTORY \<and> REFRACTORY \<noteq> READY"
  by (simp add: cell_populated_eq in_bounds_0_0 seeded_def rand_zero_def DENSITY_def
        world_refractory_def READY_def REFRACTORY_def)

text \<open>
  Claim C2 (ignition rule). For every array and every cell \<open>(x, y)\<close> of it that holds
  \<^verbatim>\<open>READY\<close> before \<^verbatim>\<open>apply_rules\<close>, the call returns and the cell afterwards holds
  \<^verbatim>\<open>FIRING\<close> if exactly two of its in-bounds Moore neighbours held \<^verbatim>\<open>FIRING\<close> in the
  array before the call, and \<^verbatim>\<open>READY\<close> otherwise. Since the two constants differ, the
  cell is firing afterwards if and only if the count was 2. The neighbours are counted
  by \<open>firing_neighbours\<close>, over the eight surrounding positions only. The statement
  needs no assumption on the other cells; it holds in particular for the arrays whose
  cells are all one of the three states.
\<close>

theorem C2_ignition:
  "in_bounds x y \<Longrightarrow> world x y = READY \<Longrightarrow>
     cell_after world x y = Some (if firing_neighbours world x y = 2 then FIRING else READY)"
proof -
  assume ib: "in_bounds x y" and ready: "world x y = READY"
  have "fire world x y = 0"
    using ready by (simp add: fire_def READY_def FIRING_def)
  then have "block_count world x y = int (firing_neighbours world x y)"
    by (simp add: block_count_centre)
  then have "next_state world x y = (if firing_neighbours world x y = 2 then FIRING else READY)"
    using ready by (simp add: next_state_def)
  then show ?thesis
    using ib by (simp add: cell_after_eq)
qed

theorem C2_ignition_witness:
  "in_bounds 2 2 \<and> world_pair 2 2 = READY \<and> cell_after world_pair 2 2 = Some FIRING"
proof -
  have ready: "world_pair 2 2 = READY"
    by (simp add: world_pair_def)
  show ?thesis
    using C2_ignition [of 2 2 world_pair] in_bounds_2_2 ready
    by (simp add: firing_neighbours_world_pair)
qed

text \<open>
  Claim C3 (decay). For every array and every cell \<open>(x, y)\<close> of it, a cell that holds
  \<^verbatim>\<open>FIRING\<close> before \<^verbatim>\<open>apply_rules\<close> holds \<^verbatim>\<open>REFRACTORY\<close> afterwards, and a cell that
  holds \<^verbatim>\<open>REFRACTORY\<close> before holds \<^verbatim>\<open>READY\<close> afterwards. Nothing is assumed about any
  other cell, so the neighbours play no part.
\<close>

theorem C3_decay:
  "in_bounds x y \<Longrightarrow> world x y = FIRING \<or> world x y = REFRACTORY \<Longrightarrow>
     cell_after world x y = Some (if world x y = FIRING then REFRACTORY else READY)"
  by (auto simp: cell_after_eq next_state_def READY_def FIRING_def REFRACTORY_def)

theorem C3_decay_witness:
  "in_bounds 1 2 \<and> world_pair 1 2 = FIRING \<and> cell_after world_pair 1 2 = Some REFRACTORY"
proof -
  have ib: "in_bounds 1 2"
    by (simp add: in_bounds_def MAX_X_def MAX_Y_def)
  have firing: "world_pair 1 2 = FIRING"
    by (simp add: world_pair_def)
  show ?thesis
    using C3_decay [of 1 2 world_pair] ib firing by simp
qed

text \<open>
  Claim C4 (only the three states) says that in every generation of a run, the seeded
  array included, every cell holds one of the three states. Generation 0 is the array
  as \<^verbatim>\<open>populate\<close> leaves it. With \<^verbatim>\<open>rand == 1\<close>, on an array whose cells hold 7 and with
  a random source that returns 0 every time, cell \<open>(0, 0)\<close> of generation 0 still holds
  7, which is none of the three states. The lemma \<open>generation_states_after_step\<close> shows
  that from generation 1 on every cell does hold one of the three states, whatever the
  array held before seeding.
\<close>

theorem C4_seeded_grid_not_states:
  "cell_of_generation rand_zero world_sevens 1 0 0 0 = Some 7 \<and> 7 \<notin> states"
  by (simp add: cell_of_generation_def generation_def populate_eq rd_def in_bounds_0_0
        seeded_def rand_zero_def DENSITY_def world_sevens_def states_def
        READY_def REFRACTORY_def FIRING_def)

text \<open>
  Claim C5 (simultaneity). For every grid of the specification, \<^verbatim>\<open>apply_rules\<close> run on
  the stored grid returns, and the array it leaves is the stored form of
  \<open>advance_simultaneous\<close>, in which every cell's transition is decided from the grid of
  the previous generation alone. The loops of \<^verbatim>\<open>apply_rules\<close> write \<^verbatim>\<open>world\<close> cell after
  cell and read only the copy \<^verbatim>\<open>temp\<close>; the equality shows that no value written during
  the pass reaches a later decision, so the order of the loops is without effect.
  For an array that holds other values than the three states, \<open>apply_rules_eq\<close> gives
  the result in the same form, from the array before the call alone; such a cell
  becomes \<^verbatim>\<open>READY\<close>.
\<close>

theorem C5_simultaneous:
  "apply_rules (encode g) = Some (encode (advance_simultaneous g))"
proof -
  have "(\<lambda>x y. if in_bounds x y then next_state (encode g) x y else encode g x y) =
        encode (advance_simultaneous g)"
  proof (intro ext)
    fix x y
    have "encode (advance_simultaneous g) x y =
            (if in_bounds x y then cell_code (transition g x y) else encode g x y)"
      by (simp add: encode_def advance_simultaneous_def)
    then show "(if in_bounds x y then next_state (encode g) x y else encode g x y) =
               encode (advance_simultaneous g) x y"
      by (simp add: next_state_encode)
  qed
  then show ?thesis
    by (simp only: apply_rules_eq)
qed

text \<open>
  Claim C6 (edge handling at the corner). For the ready cell at the corner \<open>(0, 0)\<close>,
  exactly three neighbour positions are in bounds, namely \<open>(1, 0)\<close>, \<open>(0, 1)\<close> and
  \<open>(1, 1)\<close>; \<^verbatim>\<open>count_neighbours\<close> returns the number of firing cells among these three,
  whatever is stored at any other index pair, so the positions out of range add nothing
  to the count; and after \<^verbatim>\<open>apply_rules\<close> the corner cell is firing if exactly two of
  the three were firing, and ready otherwise.
\<close>

theorem C6_corner:
  "world 0 0 = READY \<Longrightarrow>
     moore_neighbours 0 0 = [(1, 0), (0, 1), (1, 1)] \<and>
     count_neighbours world 0 0 =
       Some (int (length (filter (\<lambda>(a, b). world a b = FIRING) [(1, 0), (0, 1), (1, 1)]))) \<and>
     cell_after world 0 0 =
       Some (if length (filter (\<lambda>(a, b). world a b = FIRING) [(1, 0), (0, 1), (1, 1)]) = 2
             then FIRING else READY)"
proof -
  assume ready: "world 0 0 = READY"
  then have nf: "world 0 0 \<noteq> FIRING"
    by (simp add: READY_def FIRING_def)
  have fn: "firing_neighbours world 0 0 =
              length (filter (\<lambda>(a, b). world a b = FIRING) [(1, 0), (0, 1), (1, 1)])"
    by (simp only: firing_neighbours_def moore_neighbours_corner)
  have "fire world 0 0 = 0"
    using nf by (simp add: fire_def)
  then have "block_count world 0 0 = int (firing_neighbours world 0 0)"
    by (simp add: block_count_centre)
  then have "next_state world 0 0 = (if firing_neighbours world 0 0 = 2 then FIRING else READY)"
    using ready by (simp add: next_state_def)
  then have "cell_after world 0 0 = Some (if firing_neighbours world 0 0 = 2 then FIRING else READY)"
    by (simp add: cell_after_eq in_bounds_0_0)
  moreover have "count_neighbours world 0 0 = Some (int (firing_neighbours world 0 0))"
    using nf by (rule count_neighbours_not_firing)
  ultimately show ?thesis
    unfolding fn using moore_neighbours_corner by simp
qed

theorem C6_corner_witness:
  "world_corner 0 0 = READY \<and> count_neighbours world_corner 0 0 = Some 2 \<and>
   cell_after world_corner 0 0 = Some FIRING"
proof -
  have ready: "world_corner 0 0 = READY"
    by (simp add: world_corner_def)
  have "length (filter (\<lambda>(a, b). world_corner a b = FIRING) [(1, 0), (0, 1), (1, 1)]) = 2"
    by (simp add: world_corner_def READY_def FIRING_def)
  then show ?thesis
    using C6_corner [of world_corner] ready by simp
qed

text \<open>
  Claim C7 (the centre of the block). For every array and every cell \<open>(x, y)\<close> of it
  that is not firing, the count that \<^verbatim>\<open>count_neighbours\<close> computes over the full 3 by 3
  block, centre included, equals the number of firing cells among the eight surrounding
  in-bounds positions, centre excluded.
\<close>

theorem C7_centre_excluded:
  "in_bounds x y \<Longrightarrow> world x y \<noteq> FIRING \<Longrightarrow>
     count_neighbours world x y = Some (int (firing_neighbours world x y))"
  by (rule count_neighbours_not_firing)

theorem C7_centre_excluded_witness:
  "in_bounds 2 2 \<and> world_pair 2 2 \<noteq> FIRING \<and> count_neighbours world_pair 2 2 = Some 2"
proof -
  have nf: "world_pair 2 2 \<noteq> FIRING"
    by (simp add: world_pair_def READY_def FIRING_def)
  show ?thesis
    using C7_centre_excluded [of 2 2 world_pair] in_bounds_2_2 nf
    by (simp add: firing_neighbours_world_pair)
qed

text \<open>
  Claim C8 (seeding without randomness). When the flag \<^verbatim>\<open>rand\<close> is not 1 (in particular
  when it is 0, false), \<^verbatim>\<open>populate\<close> returns, every cell of the array holds \<^verbatim>\<open>READY\<close>
  afterwards, for every content of the array before the call and every random source,
  and no random number is drawn: the position in the random source is unchanged. So
  the array has no firing and no refractory cell.
\<close>

theorem C8_seed_all_ready:
  "rand \<noteq> 1 \<Longrightarrow> in_bounds x y \<Longrightarrow>
     cell_populated src world rand pos x y = Some READY \<and>
     map_option snd (populate src world rand pos) = Some pos"
  by (simp add: cell_populated_eq populate_eq seeded_def drawn_def)

theorem C8_seed_all_ready_witness:
  "(0::int) \<noteq> 1 \<and> in_bounds 2 2 \<and>
   cell_populated rand_zero world_sevens 0 0 2 2 = Some READY \<and>
   map_option snd (populate rand_zero world_sevens 0 0) = Some 0"
  using C8_seed_all_ready [of 0 2 2 rand_zero world_sevens 0] in_bounds_2_2 by simp

text \<open>
  Claim C9 (determinism). \<^verbatim>\<open>apply_rules\<close> takes the array and nothing else: the model
  has no random source and no other state among its arguments, because the source calls
  neither \<^verbatim>\<open>rand\<close> nor reads any variable but its parameter and its local copy. Of the
  array it uses the cells only: when two arrays agree on every cell, whatever differs
  at the index pairs outside the array, the call returns for both and leaves the same
  state in every cell.
\<close>

theorem C9_deterministic:
  "(\<forall>x y. in_bounds x y \<longrightarrow> world1 x y = world2 x y) \<Longrightarrow> in_bounds x y \<Longrightarrow>
     cell_after world1 x y = cell_after world2 x y \<and> cell_after world1 x y \<noteq> None"
  by (simp add: cell_after_eq next_state_agree)

theorem C9_deterministic_witness:
  "in_bounds 2 2 \<and> cell_after world_pair 2 2 = cell_after world_pair_padded 2 2 \<and>
   cell_after world_pair 2 2 \<noteq> None"
proof -
  have same: "\<forall>x y. in_bounds x y \<longrightarrow> world_pair x y = world_pair_padded x y"
    by (simp add: world_pair_padded_def)
  show ?thesis
    using C9_deterministic [OF same in_bounds_2_2] in_bounds_2_2 by blast
qed

text \<open>
  Claim C10 (safety of the count). For every array and every cell \<open>(x, y)\<close> of it,
  \<^verbatim>\<open>count_neighbours\<close> returns a count: no subscript of its nine reads leaves the array,
  since a read outside would make the result \<open>None\<close>. The count it returns lies between 0
  and 9 inclusive.
\<close>

theorem C10_count_safe_bounded:
  "in_bounds x y \<Longrightarrow> \<exists>c. count_neighbours world x y = Some c \<and> 0 \<le> c \<and> c \<le> 9"
  by (simp add: count_neighbours_block block_count_range)

theorem C10_count_safe_bounded_witness:
  "in_bounds 2 2 \<and> (\<exists>c. count_neighbours world_pair 2 2 = Some c \<and> 0 \<le> c \<and> c \<le> 9)"
  using C10_count_safe_bounded [of 2 2 world_pair] in_bounds_2_2 by simp

end
